theory Spec2Isabelle
  imports Complex_Main "HOL-Library.Sublist"
begin

section \<open>JavaScript values and string primitives used by the extension\<close>

text \<open>
  The extension (src/src/extension.ts) is TypeScript running on the JavaScript semantics
  of the editor's extension host. A string is modelled as a \<open>char list\<close>, one
  \<open>char\<close> per code unit, so \<open>length\<close> is the source's \<open>.length\<close>; the
  texts modelled are those whose code units fit the 8 bits of \<open>char\<close>.
\<close>

text \<open>
  \<open>x || d\<close> on an optional string and on an optional number: \<open>undefined\<close>, the
  empty string and zero are falsy and give the default.
\<close>

definition or_str :: "string option \<Rightarrow> string \<Rightarrow> string" where
  "or_str v d = (case v of None \<Rightarrow> d | Some x \<Rightarrow> if x = [] then d else x)"

definition or_number :: "'a::zero option \<Rightarrow> 'a \<Rightarrow> 'a" where
  "or_number v d = (case v of None \<Rightarrow> d | Some x \<Rightarrow> if x = 0 then d else x)"

text \<open>String conversion of an optional string in a concatenation.\<close>

definition js_to_string :: "string option \<Rightarrow> string" where
  "js_to_string v = (case v of None \<Rightarrow> ''undefined'' | Some x \<Rightarrow> x)"

text \<open>
  \<open>String.prototype.substring(start, end)\<close>: both indices are clamped to
  \<open>[0, length]\<close> and swapped when \<open>start > end\<close>.
\<close>

definition js_substring :: "int \<Rightarrow> int \<Rightarrow> string \<Rightarrow> string" where
  "js_substring start fin s =
     (let len = int (length s);
          a = min (max start 0) len;
          b = min (max fin 0) len;
          from = min a b;
          to = max a b
      in take (nat (to - from)) (drop (nat from) s))"

text \<open>
  \<open>String.prototype.replace(pattern, replacement)\<close> with a string pattern replaces the
  first occurrence only. \<open>split_first pat s\<close> finds it: the text before and the text
  after the leftmost occurrence of \<open>pat\<close>.
\<close>

fun split_first :: "string \<Rightarrow> string \<Rightarrow> (string \<times> string) option" where
  "split_first pat [] = (if pat = [] then Some ([], []) else None)"
| "split_first pat (c # cs) =
     (if prefix pat (c # cs) then Some ([], drop (length pat) (c # cs))
      else (case split_first pat cs of
              None \<Rightarrow> None
            | Some (b, a) \<Rightarrow> Some (c # b, a)))"

text \<open>
  The replacement text is expanded (GetSubstitution of the language standard, with no
  capture groups): \<open>$$\<close> is a dollar sign, \<open>$&\<close> the matched text, \<open>$\<close> followed
  by a backquote the text before the match and by an apostrophe the text after it; any
  other \<open>$\<close> stands for itself.
\<close>

fun get_substitution :: "string \<Rightarrow> string \<Rightarrow> string \<Rightarrow> string \<Rightarrow> string" where
  "get_substitution m b a [] = []"
| "get_substitution m b a [c] = [c]"
| "get_substitution m b a (c # d # r) =
     (if c = CHR ''$'' then
        (if d = CHR ''$'' then CHR ''$'' # get_substitution m b a r
         else if d = CHR ''&'' then m @ get_substitution m b a r
         else if d = CHR 0x60 then b @ get_substitution m b a r
         else if d = CHR 0x27 then a @ get_substitution m b a r
         else c # get_substitution m b a (d # r))
      else c # get_substitution m b a (d # r))"

definition js_replace :: "string \<Rightarrow> string \<Rightarrow> string \<Rightarrow> string" where
  "js_replace pat rep s =
     (case split_first pat s of
        None \<Rightarrow> s
      | Some (b, a) \<Rightarrow> b @ get_substitution pat b a rep @ a)"

text \<open>
  White space and line terminators that \<open>trim\<close> and \<open>trimStart\<close> strip, among the
  code units of \<open>char\<close>: tab, line feed, vertical tab, form feed, carriage return,
  space and the no-break space.
\<close>

definition is_ws :: "char \<Rightarrow> bool" where
  "is_ws c = (c = CHR 0x09 \<or> c = CHR 0x0A \<or> c = CHR 0x0B \<or> c = CHR 0x0C \<or>
              c = CHR 0x0D \<or> c = CHR 0x20 \<or> c = CHR 0xA0)"

definition js_trimStart :: "string \<Rightarrow> string" where
  "js_trimStart s = dropWhile is_ws s"

definition js_trimEnd :: "string \<Rightarrow> string" where
  "js_trimEnd s = rev (dropWhile is_ws (rev s))"

definition js_trim :: "string \<Rightarrow> string" where
  "js_trim s = js_trimEnd (js_trimStart s)"

text \<open>
  \<open>Array.prototype.join(sep)\<close> over elements that are strings or \<open>undefined\<close>: an
  undefined element contributes the empty string.
\<close>

fun js_join :: "string \<Rightarrow> string option list \<Rightarrow> string" where
  "js_join sep [] = []"
| "js_join sep [x] = or_str x []"
| "js_join sep (x # y # r) = or_str x [] @ sep @ js_join sep (y # r)"

text \<open>\<open>String.prototype.split("\n")\<close>: the pieces between the line feeds.\<close>

fun split_nl :: "string \<Rightarrow> string list" where
  "split_nl [] = [[]]"
| "split_nl (c # cs) =
     (if c = CHR 0x0A then [] # split_nl cs
      else (c # hd (split_nl cs)) # tl (split_nl cs))"

section \<open>Configuration Snapshot\<close>

text \<open>
  The host's configuration under the namespace \<open>squeel-autocoder\<close>:
  \<open>VSConfig.get(key)\<close> is \<open>undefined\<close> (\<open>None\<close>) for an option that is absent and a
  value of the option's declared type otherwise.
\<close>

record workspace_configuration =
  opt_endpoint :: "string option"
  opt_model :: "string option"
  opt_message_header :: "string option"
  opt_max_tokens_predicted :: "int option"
  opt_prompt_window_size :: "int option"
  opt_completion_keys :: "string option"
  opt_response_preview :: "bool option"
  opt_preview_max_tokens :: "int option"
  opt_preview_delay :: "rat option"
  opt_continue_inline :: "bool option"
  opt_temperature :: "rat option"

text \<open>The module-level variables of lines 7 to 18, with their declared types.\<close>

record snapshot =
  apiEndpoint :: string
  apiModel :: string
  apiMessageHeader :: string
  apiTemperature :: rat
  embedModel :: string
  numPredict :: int
  promptWindowSize :: int
  completionKeys :: string
  responsePreview :: "bool option"
  responsePreviewMaxTokens :: int
  responsePreviewDelay :: rat
  continueInline :: "bool option"

definition updateVSConfig :: "workspace_configuration \<Rightarrow> snapshot" where
  "updateVSConfig VSConfig =
     \<lparr> apiEndpoint = or_str (opt_endpoint VSConfig) [],
       apiModel = or_str (opt_model VSConfig) [],
       apiMessageHeader = or_str (opt_message_header VSConfig) [],
       apiTemperature = or_number (opt_temperature VSConfig) 0,
       embedModel = or_str (opt_model VSConfig) [],
       numPredict = or_number (opt_max_tokens_predicted VSConfig) 0,
       promptWindowSize = or_number (opt_prompt_window_size VSConfig) 0,
       completionKeys = or_str (opt_completion_keys VSConfig) '' '',
       responsePreview = opt_response_preview VSConfig,
       responsePreviewMaxTokens = or_number (opt_preview_max_tokens VSConfig) 0,
       responsePreviewDelay = or_number (opt_preview_delay VSConfig) 0,
       continueInline = opt_continue_inline VSConfig \<rparr>"

text \<open>A flag of type \<open>boolean | undefined\<close> in a condition: \<open>undefined\<close> is falsy.\<close>

definition truthy :: "bool option \<Rightarrow> bool" where
  "truthy v = (v = Some True)"

text \<open>The configuration in which every option is absent.\<close>

definition cfg0 :: workspace_configuration where
  "cfg0 =
     \<lparr> opt_endpoint = None, opt_model = None, opt_message_header = None,
       opt_max_tokens_predicted = None, opt_prompt_window_size = None,
       opt_completion_keys = None, opt_response_preview = None,
       opt_preview_max_tokens = None, opt_preview_delay = None,
       opt_continue_inline = None, opt_temperature = None \<rparr>"

section \<open>Header substitution\<close>

record text_document =
  languageId :: string
  fileName :: string

text \<open>
  \<open>messageHeaderSub\<close> (lines 44 to 50). The workspace name is \<open>undefined\<close> when no
  folder is open.
\<close>

definition messageHeaderSub :: "snapshot \<Rightarrow> string option \<Rightarrow> text_document \<Rightarrow> string" where
  "messageHeaderSub cfg workspace_name document =
     js_replace ''{PROJECT_NAME}'' (or_str workspace_name ''Untitled'')
       (js_replace ''{FILE_NAME}'' (fileName document)
          (js_replace ''{LANG}'' (languageId document) (apiMessageHeader cfg)))"

section \<open>Error Reporter\<close>

text \<open>
  The fields of an error that the handlers read: \<open>err.code\<close>, \<open>err.message\<close> and, for
  an HTTP error response with a body, \<open>err.response.data.error\<close>.
\<close>

record js_error =
  code :: "string option"
  message :: "string option"
  response_error :: "string option option"

text \<open>
  The dash of the two hints is U+2014, outside the 8 bits of \<open>char\<close>; it stands here as
  one \<open>char\<close>.
\<close>

definition em_dash :: char where
  "em_dash = CHR 0x97"

text \<open>
  \<open>handleError\<close> (lines 54 to 68). The result is the list of notifications shown with
  \<open>showErrorMessage\<close>: none or one.
\<close>

definition handleError :: "js_error \<Rightarrow> string list" where
  "handleError err =
     (if code err = Some ''ERR_CANCELED'' then []
      else
        let error_reason0 = (case code err of None \<Rightarrow> [] | Some c \<Rightarrow> c);
            error_reason1 =
              (if code err = Some ''ECONNREFUSED''
               then ''ECONNREFUSED '' @ [em_dash] @ '' Ollama is likely not running''
               else error_reason0);
            error_reason =
              (if code err = Some ''ERR_BAD_REQUEST''
               then ''ERR_BAD_REQUEST '' @ [em_dash] @ '' Settings are likely misconfigured''
               else error_reason1);
            error_response = message err
        in [''Ollama Autocoder encountered an error: '' @ error_reason @
            (if error_response \<noteq> Some [] then '': '' else []) @
            js_to_string error_response])"

section \<open>Prompt window\<close>

text \<open>
  \<open>autocompleteCommand\<close> (line 97) and \<open>provideCompletionItems\<close> (line 229):
  \<^verbatim>\<open>prompt = prompt.substring(Math.max(0, prompt.length - promptWindowSize), prompt.length)\<close>
  where \<open>prompt\<close> is the document text from the start of the file to the cursor, as
  returned by the host's \<open>document.getText\<close>. The window size is a number of the
  Configuration Snapshot; it is an integer here.
\<close>

definition clipPrompt :: "snapshot \<Rightarrow> string \<Rightarrow> string" where
  "clipPrompt cfg prompt =
     js_substring (max 0 (int (length prompt) - promptWindowSize cfg)) (int (length prompt))
       prompt"

section \<open>Embedding Store and prompt assembly\<close>

text \<open>
  The name \<open>embeddings\<close> occurs at lines 83 and 100 only: the module declares no such
  binding. In the strict code of a module, reading or assigning a name that is not
  declared throws a ReferenceError. \<open>module_embeddings\<close> is the binding as the module
  has it: none. An element of a store would be read for its \<open>text\<close> property
  (line 100).
\<close>

datatype js_exception = ReferenceError string

record embedding_entry =
  entry_text :: "string option"

definition module_embeddings :: "embedding_entry list option" where
  "module_embeddings = None"

text \<open>
  The request body and URL of \<open>axios.post\<close>.
\<close>

record generate_request =
  post_url :: string
  post_model :: string
  post_prompt :: string
  post_stream :: bool
  post_raw :: bool
  post_num_predict :: int
  post_temperature :: rat
  post_stop :: "string list"
  post_num_ctx :: int

text \<open>
  \<open>autocompleteCommand\<close>, lines 96 to 101 and 126 to 136. \<open>before\<close> is
  \<open>document.getText\<close> of the range from the start of line 0 to the cursor. The result
  is the exception thrown or the value built.
\<close>

definition completeInput :: "snapshot \<Rightarrow> string option \<Rightarrow> text_document \<Rightarrow> string \<Rightarrow>
    js_exception + string" where
  "completeInput cfg workspace_name document before =
     (let prompt = clipPrompt cfg before
      in case module_embeddings of
           None \<Rightarrow> Inl (ReferenceError ''embeddings is not defined'')
         | Some embeddings \<Rightarrow>
             (let context = js_join [CHR 0x0A] (map entry_text embeddings)
              in Inr (messageHeaderSub cfg workspace_name document @ context @ [CHR 0x0A] @
                      prompt)))"

definition streamRequest :: "snapshot \<Rightarrow> string option \<Rightarrow> text_document \<Rightarrow> string \<Rightarrow>
    js_exception + generate_request" where
  "streamRequest cfg workspace_name document before =
     (case completeInput cfg workspace_name document before of
        Inl exn \<Rightarrow> Inl exn
      | Inr input \<Rightarrow>
          Inr \<lparr> post_url = apiEndpoint cfg,
                post_model = apiModel cfg,
                post_prompt = input,
                post_stream = True,
                post_raw = True,
                post_num_predict = numPredict cfg,
                post_temperature = apiTemperature cfg,
                post_stop = [replicate 3 (CHR 0x60)],
                post_num_ctx = min (int (length input)) (promptWindowSize cfg) \<rparr>)"

text \<open>
  The streaming request of the variant without RAG context (lines 472, 473 and 497 to
  510): the prompt is the substituted header and the clipped window.
\<close>

definition streamRequest_legacy :: "snapshot \<Rightarrow> string option \<Rightarrow> text_document \<Rightarrow> string \<Rightarrow>
    generate_request" where
  "streamRequest_legacy cfg workspace_name document before =
     (let prompt = clipPrompt cfg before;
          input = messageHeaderSub cfg workspace_name document @ prompt
      in \<lparr> post_url = apiEndpoint cfg,
           post_model = apiModel cfg,
           post_prompt = input,
           post_stream = True,
           post_raw = True,
           post_num_predict = numPredict cfg,
           post_temperature = apiTemperature cfg,
           post_stop = [replicate 3 (CHR 0x60)],
           post_num_ctx = min (int (length input)) (promptWindowSize cfg) \<rparr>)"

text \<open>
  \<open>createEmbeddings\<close> (lines 71 to 88), given what the awaited embed call gives: the
  vectors of the response, or the error thrown. The assignment of line 83 is to the
  undeclared name and throws inside the \<open>try\<close>; the error caught has no code and the
  message of the ReferenceError. The result is the information messages and the error
  notifications shown.
\<close>

datatype embed_outcome = Embedded "rat list list" | EmbedFailed js_error

definition createEmbeddings :: "embed_outcome \<Rightarrow> string list \<times> string list" where
  "createEmbeddings outcome =
     (case outcome of
        Embedded response_embeddings \<Rightarrow>
          (case module_embeddings of
             None \<Rightarrow>
               ([], handleError \<lparr> code = None,
                                   message = Some ''embeddings is not defined'',
                                   response_error = None \<rparr>)
           | Some _ \<Rightarrow> ([''Embeddings created successfully.''], []))
      | EmbedFailed err \<Rightarrow> ([], handleError err))"

section \<open>Completion Provider Adapter\<close>

datatype insert_text = SnippetString string | PlainString string

record command =
  command_name :: string
  command_title :: string

record completion_item =
  label :: string
  insertText :: insert_text
  documentation :: "string option"
  command :: "command option"

text \<open>
  The preview request of \<open>provideCompletionItems\<close> (lines 228 to 250): no RAG context.
\<close>

definition previewRequest :: "snapshot \<Rightarrow> string option \<Rightarrow> text_document \<Rightarrow> string \<Rightarrow>
    generate_request" where
  "previewRequest cfg workspace_name document before =
     (let prompt = clipPrompt cfg before;
          input = messageHeaderSub cfg workspace_name document @ prompt
      in \<lparr> post_url = apiEndpoint cfg,
           post_model = apiModel cfg,
           post_prompt = input,
           post_stream = False,
           post_raw = True,
           post_num_predict = responsePreviewMaxTokens cfg,
           post_temperature = apiTemperature cfg,
           post_stop = [[CHR 0x0A], replicate 3 (CHR 0x60)],
           post_num_ctx = min (int (length input)) (promptWindowSize cfg) \<rparr>)"

text \<open>
  What the awaited preview request gives: the \<open>response\<close> field of the body, or the
  error thrown.
\<close>

datatype preview_outcome = Response string | Failure js_error

text \<open>
  \<open>provideCompletionItems\<close> (lines 211 to 272). \<open>isCancellationRequested\<close> is the
  host token's flag after the delay; \<open>outcome\<close> is consulted only when the request is
  issued. The result is the returned items and the notifications shown.
\<close>

definition provideCompletionItems :: "snapshot \<Rightarrow> bool \<Rightarrow> preview_outcome \<Rightarrow>
    completion_item list \<times> string list" where
  "provideCompletionItems cfg isCancellationRequested outcome =
     (let item = \<lparr> label = ''Autocomplete with Ollama'',
                    insertText = SnippetString ''${1:}'',
                    documentation = None,
                    command = None \<rparr>
      in if isCancellationRequested then ([item], [])
         else
           let (item1, shown) =
                 (if truthy (responsePreview cfg) then
                    (case outcome of
                       Response r \<Rightarrow>
                         (if js_trim r \<noteq> []
                          then (item\<lparr> label := js_trimStart r,
                                      insertText := PlainString (js_trimStart r) \<rparr>, [])
                          else (item, []))
                     | Failure err \<Rightarrow>
                         (item, handleError (case response_error err of
                                               None \<Rightarrow> err
                                             | Some e \<Rightarrow> err\<lparr> message := e \<rparr>)))
                  else (item, []));
               item2 = item1\<lparr> documentation :=
                   Some (''Press '' @ [CHR 0x60] @ ''Enter'' @ [CHR 0x60] @
                         '' to get an autocompletion from Ollama'') \<rparr>;
               item3 =
                 (if truthy (continueInline cfg) \<or> \<not> truthy (responsePreview cfg)
                  then item2\<lparr> command := Some \<lparr> command_name = ''squeel-autocoder.autocomplete'',
                                                 command_title = ''Autocomplete with Ollama'' \<rparr> \<rparr>
                  else item2)
           in ([item3], shown))"

section \<open>Chat panel\<close>

record webview_message =
  msg_command :: string
  msg_text :: string

record chat_message =
  role :: string
  content :: string

record chat_request =
  chat_model :: string
  chat_messages :: "chat_message list"
  chat_stream :: bool

text \<open>
  The messages posted back to the webview while the parts of the streamed answer
  arrive: \<open>responseText\<close> accumulates.
\<close>

fun chatResponses :: "string \<Rightarrow> string list \<Rightarrow> webview_message list" where
  "chatResponses responseText [] = []"
| "chatResponses responseText (part # parts) =
     \<lparr> msg_command = ''chatResponse'', msg_text = responseText @ part \<rparr> #
     chatResponses (responseText @ part) parts"

text \<open>
  The \<open>onDidReceiveMessage\<close> handler of the chat panel (lines 326 to 352 of the chat
  variant). The process-wide Configuration Snapshot is passed as \<open>cfg\<close>, as to every
  other operation; \<open>parts\<close> are the \<open>message.content\<close> of the streamed parts and
  \<open>failure\<close> the text of the error thrown by the call or the stream, if any. The
  result is the request issued, if any, and the messages posted to the webview.
\<close>

definition onDidReceiveMessage :: "snapshot \<Rightarrow> webview_message \<Rightarrow> string list \<Rightarrow>
    string option \<Rightarrow> chat_request option \<times> webview_message list" where
  "onDidReceiveMessage cfg msg parts failure =
     (if msg_command msg = ''ask'' then
        (Some \<lparr> chat_model = ''deepseek-r1:8b'',
                 chat_messages = [\<lparr> role = ''user'', content = msg_text msg \<rparr>],
                 chat_stream = True \<rparr>,
         chatResponses [] parts @
         (case failure of
            None \<Rightarrow> []
          | Some err \<Rightarrow> [\<lparr> msg_command = ''chatResponse'', msg_text = ''Error: '' @ err \<rparr>]))
      else (None, []))"

section \<open>Streaming Apply Loop\<close>

text \<open>
  Positions and selections of the host editor. A selection is a range built from its
  anchor and its active end; its \<open>end\<close> is the later of the two.
\<close>

record vs_position =
  line :: nat
  character :: nat

record vs_selection =
  anchor :: vs_position
  active :: vs_position

definition isBefore :: "vs_position \<Rightarrow> vs_position \<Rightarrow> bool" where
  "isBefore p q = (line p < line q \<or> (line p = line q \<and> character p < character q))"

definition selection_end :: "vs_selection \<Rightarrow> vs_position" where
  "selection_end sel = (if isBefore (anchor sel) (active sel) then active sel else anchor sel)"

text \<open>
  The state of one streaming request, from the moment the response stream is obtained
  (line 143): the trigger position \<open>position\<close>, the tracker \<open>currentPosition\<close>, the
  editor's live selection, the insertions submitted to \<open>workspace.applyEdit\<close> (oldest
  first), the messages given to \<open>progress.report\<close>, the reason of the cancel token
  (\<open>None\<close> until it fires), whether the host's cancellation token was passed to the
  command, whether the stream has emitted \<open>end\<close>, the value of the promise
  \<open>finished\<close> (\<open>None\<close> while pending) and the number of times \<open>await finished\<close>
  has returned.
\<close>

record stream_state =
  trigger :: vs_position
  currentPosition :: vs_position
  selection :: vs_selection
  edits :: "(vs_position \<times> string) list"
  progress :: "string list"
  cancel_reason :: "string option"
  host_token :: bool
  ended :: bool
  finished :: "bool option"
  finish_count :: nat

definition init_state :: "vs_selection \<Rightarrow> bool \<Rightarrow> stream_state" where
  "init_state sel token =
     \<lparr> trigger = active sel,
       currentPosition = active sel,
       selection = sel,
       edits = [],
       progress = [''Starting model...''],
       cancel_reason = None,
       host_token = token,
       ended = False,
       finished = None,
       finish_count = 0 \<rparr>"

text \<open>
  \<open>resolve\<close> of the promise \<open>finished\<close> (lines 186 to 194): a promise settles at its
  first resolution and later calls do nothing; the awaiting callback then returns.
\<close>

definition resolve :: "bool \<Rightarrow> stream_state \<Rightarrow> stream_state" where
  "resolve v s =
     (case finished s of
        None \<Rightarrow> s\<lparr> finished := Some v, finish_count := finish_count s + 1 \<rparr>
      | Some _ \<Rightarrow> s)"

text \<open>
  \<open>cancelPost\<close> (lines 116 to 118) calls the cancel function of the token: the first
  call sets the reason and resolves the token's promise, on which line 191 has
  registered \<open>resolve(false)\<close>; a call on a token that has a reason returns at once.
\<close>

definition cancelPost :: "stream_state \<Rightarrow> stream_state" where
  "cancelPost s =
     (case cancel_reason s of
        Some _ \<Rightarrow> s
      | None \<Rightarrow>
          resolve False
            (s\<lparr> cancel_reason := Some ''Autocompletion request terminated by user cancel'' \<rparr>))"

text \<open>
  The \<open>data\<close> handler (lines 145 to 183) for a chunk whose \<open>response\<close> field is
  \<open>completion\<close>, run as one step: the awaited edit is over before the next event.
  The edit is recorded as submitted, whatever the host answers.
\<close>

definition on_data :: "string \<Rightarrow> stream_state \<Rightarrow> stream_state" where
  "on_data completion s0 =
     (let s = s0\<lparr> progress := progress s0 @ [''Generating...''] \<rparr>
      in if line (currentPosition s) \<noteq> line (selection_end (selection s)) \<or>
            character (currentPosition s) \<noteq> character (selection_end (selection s))
         then cancelPost s
         else if completion = [] then s
         else
           let completionLines = split_nl completion;
               newPosition =
                 \<lparr> line = line (currentPosition s) + length completionLines - 1,
                   character =
                     (if length completionLines > 1 then 0 else character (currentPosition s)) +
                     length (last completionLines) \<rparr>;
               newSelection = \<lparr> anchor = trigger s, active = newPosition \<rparr>
           in s\<lparr> edits := edits s @ [(currentPosition s, completion)],
                 currentPosition := newPosition,
                 progress := progress s @ [''Generating...''],
                 selection := newSelection \<rparr>)"

text \<open>The \<open>end\<close> handler (lines 187 to 190).\<close>

definition on_end :: "stream_state \<Rightarrow> stream_state" where
  "on_end s =
     resolve True (s\<lparr> ended := True, progress := progress s @ [''Ollama completion finished.''] \<rparr>)"

text \<open>
  What happens around a request: a chunk or the end of the response stream, a
  cancellation from one of the three sources on which \<open>cancelPost\<close> is registered
  (lines 120 to 122), or the user changing the selection.
\<close>

datatype cancel_source = ProgressUI | HostToken | DocumentClose

datatype event =
    Data string
  | End
  | Cancel cancel_source
  | Select vs_position vs_position

text \<open>
  Modelled from the spec: the response stream is the HTTP client library's, which is not
  part of the repository. By the contract of the Cancellation Signal and of the
  Inference Client, once the signal has fired the client aborts the connection and the
  stream delivers nothing more; a stream delivers nothing after its end.
\<close>

definition stream_emits :: "stream_state \<Rightarrow> bool" where
  "stream_emits s = (cancel_reason s = None \<and> \<not> ended s)"

fun deliver :: "event \<Rightarrow> stream_state \<Rightarrow> stream_state" where
  "deliver (Data completion) s = (if stream_emits s then on_data completion s else s)"
| "deliver End s = (if stream_emits s then on_end s else s)"
| "deliver (Cancel src) s = (if src = HostToken \<and> \<not> host_token s then s else cancelPost s)"
| "deliver (Select a b) s = s\<lparr> selection := \<lparr> anchor = a, active = b \<rparr> \<rparr>"

fun run :: "event list \<Rightarrow> stream_state \<Rightarrow> stream_state" where
  "run [] s = s"
| "run (e # es) s = run es (deliver e s)"

text \<open>
  The \<open>data\<close> handler is an async function: it runs up to \<open>await
  vscode.workspace.applyEdit(edit)\<close> (line 164), returns to the event loop, and runs
  its remainder (lines 167 to 182) when the host has answered the edit.
  \<open>data_begin\<close> is the part before the \<open>await\<close>, with whether the handler is
  suspended there; \<open>data_resume\<close> is the remainder, which reads \<open>currentPosition\<close>
  as it is at that moment. \<open>on_data\<close> is the two run with nothing in between.
\<close>

definition data_begin :: "string \<Rightarrow> stream_state \<Rightarrow> stream_state \<times> bool" where
  "data_begin completion s0 =
     (let s = s0\<lparr> progress := progress s0 @ [''Generating...''] \<rparr>
      in if line (currentPosition s) \<noteq> line (selection_end (selection s)) \<or>
            character (currentPosition s) \<noteq> character (selection_end (selection s))
         then (cancelPost s, False)
         else if completion = [] then (s, False)
         else (s\<lparr> edits := edits s @ [(currentPosition s, completion)] \<rparr>, True))"

definition data_resume :: "string \<Rightarrow> stream_state \<Rightarrow> stream_state" where
  "data_resume completion s =
     (let completionLines = split_nl completion;
          newPosition =
            \<lparr> line = line (currentPosition s) + length completionLines - 1,
              character =
                (if length completionLines > 1 then 0 else character (currentPosition s)) +
                length (last completionLines) \<rparr>;
          newSelection = \<lparr> anchor = trigger s, active = newPosition \<rparr>
      in s\<lparr> currentPosition := newPosition,
            progress := progress s @ [''Generating...''],
            selection := newSelection \<rparr>)"

text \<open>
  Delivery with the handlers' suspensions: beside the state of the request, the
  fragments of the handlers suspended at their \<open>await\<close>, oldest first. An event
  arrives, or the host answers the oldest edit awaited and its handler resumes. The
  stream emits its chunks without waiting for a handler to finish.
\<close>

datatype async_event = Arrive event | EditApplied

fun async_deliver :: "async_event \<Rightarrow> stream_state \<times> string list \<Rightarrow> stream_state \<times> string list" where
  "async_deliver (Arrive (Data completion)) (s, awaiting) =
     (if stream_emits s
      then (case data_begin completion s of
              (s', True) \<Rightarrow> (s', awaiting @ [completion])
            | (s', False) \<Rightarrow> (s', awaiting))
      else (s, awaiting))"
| "async_deliver (Arrive End) (s, awaiting) = (deliver End s, awaiting)"
| "async_deliver (Arrive (Cancel src)) (s, awaiting) = (deliver (Cancel src) s, awaiting)"
| "async_deliver (Arrive (Select a b)) (s, awaiting) = (deliver (Select a b) s, awaiting)"
| "async_deliver EditApplied (s, []) = (s, [])"
| "async_deliver EditApplied (s, completion # awaiting) = (data_resume completion s, awaiting)"

fun async_run :: "async_event list \<Rightarrow> stream_state \<times> string list \<Rightarrow> stream_state \<times> string list" where
  "async_run [] c = c"
| "async_run (e # es) c = async_run es (async_deliver e c)"

text \<open>The text after the last line feed of a fragment, and a caret at a position.\<close>

definition after_last_nl :: "string \<Rightarrow> string" where
  "after_last_nl s = rev (takeWhile (\<lambda>c. c \<noteq> CHR 0x0A) (rev s))"

definition caret :: "nat \<Rightarrow> nat \<Rightarrow> vs_selection" where
  "caret l c = \<lparr> anchor = \<lparr> line = l, character = c \<rparr>, active = \<lparr> line = l, character = c \<rparr> \<rparr>"

text \<open>
  The events that settle a request when they are delivered: the end of the stream and
  a cancellation from a source on which \<open>cancelPost\<close> is registered (the host's
  token only when the command received one).
\<close>

definition is_terminal :: "bool \<Rightarrow> event \<Rightarrow> bool" where
  "is_terminal tok e =
     (case e of End \<Rightarrow> True | Cancel src \<Rightarrow> src \<noteq> HostToken \<or> tok | _ \<Rightarrow> False)"

text \<open>
  The invariant of a request: \<open>finished\<close> holds true exactly when the stream has
  ended, false exactly when the token fired before any end, \<open>await finished\<close> has
  returned once exactly when the promise is settled, and the completion message has
  been reported exactly when the stream has ended.
\<close>

definition consistent :: "stream_state \<Rightarrow> bool" where
  "consistent s =
     ((finished s = Some True \<longleftrightarrow> ended s) \<and>
      (finished s = Some False \<longleftrightarrow> (cancel_reason s \<noteq> None \<and> \<not> ended s)) \<and>
      finish_count s = (if finished s = None then 0 else 1) \<and>
      (''Ollama completion finished.'' \<in> set (progress s) \<longleftrightarrow> ended s))"

section \<open>Header templates\<close>

text \<open>
  A header template seen as a sequence of literal texts and placeholders, the text it
  stands for, and the value each piece is meant to take. In a simple template no
  literal text has an opening brace and each placeholder occurs at most once; a plain
  value has neither an opening brace nor a dollar sign. \<open>subst_piece\<close> replaces the
  first occurrence of a placeholder by a literal text.
\<close>

datatype piece = Lit string | LANG | FILE_NAME | PROJECT_NAME

fun piece_text :: "piece \<Rightarrow> string" where
  "piece_text (Lit l) = l"
| "piece_text LANG = ''{LANG}''"
| "piece_text FILE_NAME = ''{FILE_NAME}''"
| "piece_text PROJECT_NAME = ''{PROJECT_NAME}''"

definition template :: "piece list \<Rightarrow> string" where
  "template ps = concat (map piece_text ps)"

fun piece_value :: "string option \<Rightarrow> text_document \<Rightarrow> piece \<Rightarrow> string" where
  "piece_value w d (Lit l) = l"
| "piece_value w d LANG = languageId d"
| "piece_value w d FILE_NAME = fileName d"
| "piece_value w d PROJECT_NAME = or_str w ''Untitled''"

fun lit_ok :: "piece \<Rightarrow> bool" where
  "lit_ok (Lit l) = (CHR ''{'' \<notin> set l)"
| "lit_ok _ = True"

fun is_placeholder :: "piece \<Rightarrow> bool" where
  "is_placeholder (Lit l) = False"
| "is_placeholder _ = True"

definition simple_template :: "piece list \<Rightarrow> bool" where
  "simple_template ps =
     (list_all lit_ok ps \<and> count_list ps LANG \<le> 1 \<and> count_list ps FILE_NAME \<le> 1 \<and>
      count_list ps PROJECT_NAME \<le> 1)"

definition plain :: "string \<Rightarrow> bool" where
  "plain v = (CHR ''{'' \<notin> set v \<and> CHR ''$'' \<notin> set v)"

fun subst_piece :: "piece \<Rightarrow> string \<Rightarrow> piece list \<Rightarrow> piece list" where
  "subst_piece p v [] = []"
| "subst_piece p v (x # xs) = (if x = p then Lit v # xs else x # subst_piece p v xs)"

section \<open>Sample inputs\<close>

definition doc0 :: text_document where
  "doc0 = \<lparr> languageId = ''sql'', fileName = ''q.sql'' \<rparr>"

definition cfg_preview :: snapshot where
  "cfg_preview =
     (updateVSConfig cfg0)\<lparr> responsePreview := Some True, continueInline := Some False \<rparr>"

definition cfg_negative :: snapshot where
  "cfg_negative = updateVSConfig (cfg0\<lparr> opt_prompt_window_size := Some (- 2) \<rparr>)"

definition cfg_header :: snapshot where
  "cfg_header =
     updateVSConfig
       (cfg0\<lparr> opt_message_header := Some ''-- {LANG} file {FILE_NAME} in {PROJECT_NAME}: '' \<rparr>)"

definition cfg_repeat :: snapshot where
  "cfg_repeat =
     updateVSConfig
       (cfg0\<lparr> opt_message_header := Some ''{LANG} {FILE_NAME} {PROJECT_NAME} {LANG}'' \<rparr>)"

section \<open>Properties\<close>

subsection \<open>Prompt window clipping\<close>

lemma clipPrompt_drop:
  "clipPrompt cfg p = drop (length p - nat (promptWindowSize cfg)) p"
proof -
  consider (neg) "promptWindowSize cfg < 0"
    | (within) "0 \<le> promptWindowSize cfg" "promptWindowSize cfg \<le> int (length p)"
    | (beyond) "int (length p) < promptWindowSize cfg"
    by linarith
  then show ?thesis
  proof cases
    case neg
    then show ?thesis
      by (simp add: clipPrompt_def js_substring_def Let_def min_def max_def)
  next
    case within
    then have "nat (int (length p) - promptWindowSize cfg) = length p - nat (promptWindowSize cfg)"
      by linarith
    with within show ?thesis
      by (simp add: clipPrompt_def js_substring_def Let_def min_def max_def)
  next
    case beyond
    then have "length p - nat (promptWindowSize cfg) = 0" by linarith
    with beyond show ?thesis
      by (simp add: clipPrompt_def js_substring_def Let_def min_def max_def)
  qed
qed

text \<open>
  C9, as the claim states it, fails: the window size is a number of the configuration
  and may be negative. With a window size of -2 the slice of the text \<open>SELECT\<close> is
  empty, and its length 0 is not the minimum of 6 and -2.
\<close>

theorem clipPrompt_negative_window:
  "promptWindowSize cfg_negative = - 2 \<and>
   clipPrompt cfg_negative ''SELECT'' = [] \<and>
   int (length (clipPrompt cfg_negative ''SELECT'')) \<noteq>
     min (int (length ''SELECT'')) (promptWindowSize cfg_negative)"
  by (simp add: cfg_negative_def updateVSConfig_def or_number_def cfg0_def clipPrompt_def
      js_substring_def Let_def)

text \<open>
  C9, amended. For a text before the cursor of length L and any integer window size W,
  the slice kept has length exactly min L (max W 0) and is the last min L (max W 0)
  characters of that text; the prompt of the preview request, and the prompt of the
  streaming request of the variant without RAG context, are the substituted header
  followed by exactly that slice.
\<close>

theorem clipPrompt_window:
  "length (clipPrompt cfg p) = min (length p) (nat (max (promptWindowSize cfg) 0)) \<and>
   clipPrompt cfg p =
     drop (length p - min (length p) (nat (max (promptWindowSize cfg) 0))) p \<and>
   post_prompt (previewRequest cfg ws d p) =
     messageHeaderSub cfg ws d @
     drop (length p - min (length p) (nat (max (promptWindowSize cfg) 0))) p \<and>
   post_prompt (streamRequest_legacy cfg ws d p) =
     messageHeaderSub cfg ws d @
     drop (length p - min (length p) (nat (max (promptWindowSize cfg) 0))) p"
proof -
  have n: "nat (max (promptWindowSize cfg) 0) = nat (promptWindowSize cfg)" by simp
  have "length p - min (length p) (nat (promptWindowSize cfg)) = length p - nat (promptWindowSize cfg)"
    by linarith
  with clipPrompt_drop [of cfg p]
  have slice: "clipPrompt cfg p =
      drop (length p - min (length p) (nat (max (promptWindowSize cfg) 0))) p"
    by (simp only: n)
  have len: "length (clipPrompt cfg p) = min (length p) (nat (max (promptWindowSize cfg) 0))"
    by (simp only: n clipPrompt_drop [of cfg p]) (simp add: min_def)
  have preview: "post_prompt (previewRequest cfg ws d p) = messageHeaderSub cfg ws d @ clipPrompt cfg p"
    by (simp add: previewRequest_def Let_def)
  have legacy: "post_prompt (streamRequest_legacy cfg ws d p) =
      messageHeaderSub cfg ws d @ clipPrompt cfg p"
    by (simp add: streamRequest_legacy_def Let_def)
  from slice len preview legacy show ?thesis by metis
qed

theorem clipPrompt_window_witness:
  "clipPrompt (updateVSConfig (cfg0\<lparr>opt_prompt_window_size := Some 3\<rparr>)) ''SELECT a'' = ''T a'' \<and>
   clipPrompt (updateVSConfig (cfg0\<lparr>opt_prompt_window_size := Some 20\<rparr>)) ''SELECT a'' = ''SELECT a'' \<and>
   clipPrompt cfg_negative ''SELECT a'' = [] \<and>
   post_prompt (previewRequest (updateVSConfig (cfg0\<lparr>opt_prompt_window_size := Some 3\<rparr>)) None doc0
      ''SELECT a'') = ''T a''"
proof -
  let ?c3 = "updateVSConfig (cfg0\<lparr>opt_prompt_window_size := Some 3\<rparr>)"
  let ?c20 = "updateVSConfig (cfg0\<lparr>opt_prompt_window_size := Some 20\<rparr>)"
  have w3: "promptWindowSize ?c3 = 3" and w20: "promptWindowSize ?c20 = 20"
    and wn: "promptWindowSize cfg_negative = - 2"
    by (simp_all add: updateVSConfig_def or_number_def cfg_negative_def)
  have h: "messageHeaderSub ?c3 None doc0 = []"
    by (simp add: messageHeaderSub_def updateVSConfig_def or_str_def cfg0_def js_replace_def)
  from clipPrompt_window [of ?c3 "''SELECT a''" None doc0]
    clipPrompt_window [of ?c20 "''SELECT a''" None doc0]
    clipPrompt_window [of cfg_negative "''SELECT a''" None doc0]
  show ?thesis by (simp add: w3 w20 wn h)
qed

subsection \<open>Configuration defaults\<close>

text \<open>
  C4, as the claim states it, fails: the options \<open>response preview\<close> and
  \<open>continue inline\<close> are recognised, lines 30 and 33 read them without a default, and
  with the options absent the two flags of the snapshot are undefined.
\<close>

theorem updateVSConfig_undefined_flag:
  "opt_response_preview cfg0 = None \<and> responsePreview (updateVSConfig cfg0) = None \<and>
   opt_continue_inline cfg0 = None \<and> continueInline (updateVSConfig cfg0) = None"
  by (simp add: cfg0_def updateVSConfig_def)

text \<open>
  C4, amended. For every string and numeric option that is absent, the refreshed
  snapshot holds the default: the empty string, zero, or \<open>" "\<close> for the completion
  keys. The two boolean flags are stored as read, undefined when absent.
\<close>

theorem updateVSConfig_defaults:
  "(opt_endpoint c = None \<longrightarrow> apiEndpoint (updateVSConfig c) = []) \<and>
   (opt_model c = None \<longrightarrow>
      apiModel (updateVSConfig c) = [] \<and> embedModel (updateVSConfig c) = []) \<and>
   (opt_message_header c = None \<longrightarrow> apiMessageHeader (updateVSConfig c) = []) \<and>
   (opt_max_tokens_predicted c = None \<longrightarrow> numPredict (updateVSConfig c) = 0) \<and>
   (opt_prompt_window_size c = None \<longrightarrow> promptWindowSize (updateVSConfig c) = 0) \<and>
   (opt_completion_keys c = None \<longrightarrow> completionKeys (updateVSConfig c) = '' '') \<and>
   (opt_preview_max_tokens c = None \<longrightarrow> responsePreviewMaxTokens (updateVSConfig c) = 0) \<and>
   (opt_preview_delay c = None \<longrightarrow> responsePreviewDelay (updateVSConfig c) = 0) \<and>
   (opt_temperature c = None \<longrightarrow> apiTemperature (updateVSConfig c) = 0) \<and>
   responsePreview (updateVSConfig c) = opt_response_preview c \<and>
   continueInline (updateVSConfig c) = opt_continue_inline c"
  by (simp add: updateVSConfig_def or_str_def or_number_def)

theorem updateVSConfig_defaults_witness:
  "updateVSConfig cfg0 =
     \<lparr> apiEndpoint = [], apiModel = [], apiMessageHeader = [], apiTemperature = 0,
       embedModel = [], numPredict = 0, promptWindowSize = 0, completionKeys = '' '',
       responsePreview = None, responsePreviewMaxTokens = 0, responsePreviewDelay = 0,
       continueInline = None \<rparr>"
  using updateVSConfig_defaults [of cfg0]
  by (simp add: cfg0_def)

subsection \<open>Error classification\<close>

text \<open>
  C8. An error with code ECONNREFUSED gives one notification that contains the hint
  "Ollama is likely not running"; code ERR_BAD_REQUEST one that contains "Settings are
  likely misconfigured"; code ERR_CANCELED gives no notification; any other error gives
  one notification made of the fixed prefix, the code if any, and the raw message.
\<close>

theorem handleError_classification:
  "(code err = Some ''ECONNREFUSED'' \<longrightarrow>
      (\<exists>n. handleError err = [n] \<and> sublist ''Ollama is likely not running'' n)) \<and>
   (code err = Some ''ERR_BAD_REQUEST'' \<longrightarrow>
      (\<exists>n. handleError err = [n] \<and> sublist ''Settings are likely misconfigured'' n)) \<and>
   (code err = Some ''ERR_CANCELED'' \<longrightarrow> handleError err = []) \<and>
   (code err \<noteq> Some ''ERR_CANCELED'' \<and> code err \<noteq> Some ''ECONNREFUSED'' \<and>
    code err \<noteq> Some ''ERR_BAD_REQUEST'' \<and> message err = Some m \<longrightarrow>
      handleError err =
        [''Ollama Autocoder encountered an error: '' @ or_str (code err) [] @
         (if m = [] then [] else '': '') @ m])"
proof (intro conjI impI)
  assume c: "code err = Some ''ECONNREFUSED''"
  let ?pre = "''Ollama Autocoder encountered an error: '' @ ''ECONNREFUSED '' @ [em_dash] @ '' ''"
  let ?post = "(if message err \<noteq> Some [] then '': '' else []) @ js_to_string (message err)"
  have "handleError err = [?pre @ ''Ollama is likely not running'' @ ?post]"
    using c by (simp add: handleError_def)
  then show "\<exists>n. handleError err = [n] \<and> sublist ''Ollama is likely not running'' n"
    by (metis sublist_appendI)
next
  assume c: "code err = Some ''ERR_BAD_REQUEST''"
  let ?pre = "''Ollama Autocoder encountered an error: '' @ ''ERR_BAD_REQUEST '' @ [em_dash] @ '' ''"
  let ?post = "(if message err \<noteq> Some [] then '': '' else []) @ js_to_string (message err)"
  have "handleError err = [?pre @ ''Settings are likely misconfigured'' @ ?post]"
    using c by (simp add: handleError_def)
  then show "\<exists>n. handleError err = [n] \<and> sublist ''Settings are likely misconfigured'' n"
    by (metis sublist_appendI)
next
  assume "code err = Some ''ERR_CANCELED''"
  then show "handleError err = []" by (simp add: handleError_def)
next
  assume "code err \<noteq> Some ''ERR_CANCELED'' \<and> code err \<noteq> Some ''ECONNREFUSED'' \<and>
    code err \<noteq> Some ''ERR_BAD_REQUEST'' \<and> message err = Some m"
  then show "handleError err =
        [''Ollama Autocoder encountered an error: '' @ or_str (code err) [] @
         (if m = [] then [] else '': '') @ m]"
    by (simp add: handleError_def or_str_def js_to_string_def split: option.splits)
qed

theorem handleError_classification_witness:
  "(\<exists>n. handleError \<lparr> code = Some ''ECONNREFUSED'', message = Some ''connect'',
                       response_error = None \<rparr> = [n] \<and>
        sublist ''Ollama is likely not running'' n) \<and>
   (\<exists>n. handleError \<lparr> code = Some ''ERR_BAD_REQUEST'', message = Some ''status 404'',
                       response_error = None \<rparr> = [n] \<and>
        sublist ''Settings are likely misconfigured'' n) \<and>
   handleError \<lparr> code = Some ''ERR_CANCELED'', message = Some ''canceled'',
                 response_error = None \<rparr> = [] \<and>
   handleError \<lparr> code = Some ''ETIMEDOUT'', message = Some ''timed out'',
                 response_error = None \<rparr> =
     [''Ollama Autocoder encountered an error: ETIMEDOUT: timed out''] \<and>
   handleError \<lparr> code = None, message = Some ''boom'', response_error = None \<rparr> =
     [''Ollama Autocoder encountered an error: : boom'']"
  using
    handleError_classification [of "\<lparr> code = Some ''ECONNREFUSED'', message = Some ''connect'',
                       response_error = None \<rparr>" "''connect''"]
    handleError_classification [of "\<lparr> code = Some ''ERR_BAD_REQUEST'', message = Some ''status 404'',
                       response_error = None \<rparr>" "''status 404''"]
    handleError_classification [of "\<lparr> code = Some ''ERR_CANCELED'', message = Some ''canceled'',
                 response_error = None \<rparr>" "''canceled''"]
    handleError_classification [of "\<lparr> code = Some ''ETIMEDOUT'', message = Some ''timed out'',
                 response_error = None \<rparr>" "''timed out''"]
    handleError_classification [of "\<lparr> code = None, message = Some ''boom'', response_error = None \<rparr>"
      "''boom''"]
  by (simp add: or_str_def)

subsection \<open>Prompt assembly\<close>

text \<open>
  C6. The claim has the prompt of the streaming request built from the header, the RAG
  context and the window, also when no embeddings have been created. In the module the
  name \<open>embeddings\<close> is not declared: for every configuration, workspace, document
  and text before the cursor, line 100 throws a ReferenceError, no prompt is built and
  no request is made.
\<close>

theorem completeInput_throws:
  "completeInput cfg ws document before = Inl (ReferenceError ''embeddings is not defined'') \<and>
   streamRequest cfg ws document before = Inl (ReferenceError ''embeddings is not defined'')"
  by (simp add: completeInput_def streamRequest_def module_embeddings_def Let_def)

text \<open>
  No store is ever created either: when the embed call succeeds, the assignment of
  line 83 throws, the success message is not shown and the error is reported.
\<close>

lemma createEmbeddings_never_stores:
  "createEmbeddings (Embedded vs) =
     ([], [''Ollama Autocoder encountered an error: : embeddings is not defined''])"
  by (simp add: createEmbeddings_def module_embeddings_def handleError_def js_to_string_def)

subsection \<open>Preview completion item\<close>

lemma trim_no_trailing:
  assumes "js_trim r \<noteq> []" and "\<not> is_ws (last r)"
  shows "js_trim r = js_trimStart r"
proof -
  let ?t = "dropWhile is_ws r"
  have "js_trim r = rev (dropWhile is_ws (rev ?t))"
    by (simp only: js_trim_def js_trimEnd_def js_trimStart_def)
  with assms(1) have ne: "?t \<noteq> []"
    by (metis dropWhile.simps(1) rev.simps(1))
  have "r = takeWhile is_ws r @ ?t" by simp
  with ne have "last r = last ?t" by (metis last_appendR)
  with assms(2) ne have "\<not> is_ws (hd (rev ?t))" by (simp add: hd_rev)
  with ne have "dropWhile is_ws (rev ?t) = rev ?t" by (cases "rev ?t") auto
  then show ?thesis by (simp add: js_trim_def js_trimEnd_def js_trimStart_def)
qed

text \<open>
  C7, as the claim states it, fails: lines 253 and 254 use \<open>trimStart\<close>, so a response
  that ends in white space keeps it. The response \<open>"SELECT * FROM t "\<close> has the trimmed
  value \<open>"SELECT * FROM t"\<close>, and the label of the returned item is not that string.
\<close>

theorem preview_item_trailing_counterexample:
  "js_trim ''SELECT * FROM t '' = ''SELECT * FROM t'' \<and>
   map label (fst (provideCompletionItems cfg_preview False (Response ''SELECT * FROM t ''))) \<noteq>
     [''SELECT * FROM t'']"
  by (simp add: provideCompletionItems_def Let_def truthy_def cfg_preview_def js_trim_def
      js_trimEnd_def js_trimStart_def is_ws_def)

text \<open>
  C7, amended. With responsePreview true, continueInline not true, no cancellation and
  a response whose trimmed value is not empty, one item is returned, no notification is
  shown, the item's label and insert text are the response without its leading white
  space, and no command is attached; when the response does not end in white space,
  that text is the trimmed response.
\<close>

theorem preview_item:
  assumes "responsePreview cfg = Some True" and "\<not> truthy (continueInline cfg)"
    and "js_trim r \<noteq> []"
  shows "\<exists>item. provideCompletionItems cfg False (Response r) = ([item], []) \<and>
           label item = js_trimStart r \<and> insertText item = PlainString (js_trimStart r) \<and>
           command item = None \<and>
           (\<not> is_ws (last r) \<longrightarrow> js_trimStart r = js_trim r)"
  using assms trim_no_trailing [of r]
  by (simp add: provideCompletionItems_def Let_def truthy_def)

theorem preview_item_witness:
  "provideCompletionItems cfg_preview False (Response '' SELECT * FROM t'') =
     ([\<lparr> label = ''SELECT * FROM t'', insertText = PlainString ''SELECT * FROM t'',
         documentation = Some (''Press '' @ [CHR 0x60] @ ''Enter'' @ [CHR 0x60] @
                         '' to get an autocompletion from Ollama''), command = None \<rparr>], []) \<and>
    js_trim '' SELECT * FROM t'' = ''SELECT * FROM t''"
  using preview_item [of cfg_preview "'' SELECT * FROM t''"]
  by (simp add: provideCompletionItems_def Let_def truthy_def cfg_preview_def js_trim_def
      js_trimEnd_def js_trimStart_def is_ws_def)

subsection \<open>Chat model\<close>

text \<open>
  C10. Every chat request the panel's handler issues names the model
  \<open>deepseek-r1:8b\<close>; a message that is not an \<open>ask\<close> issues none; and the request
  and the posted messages do not depend on the Configuration Snapshot.
\<close>

theorem chat_model_fixed:
  "(msg_command m = ''ask'' \<longrightarrow>
      (\<exists>rq. fst (onDidReceiveMessage cfg m parts failure) = Some rq \<and>
            chat_model rq = ''deepseek-r1:8b'')) \<and>
   (msg_command m \<noteq> ''ask'' \<longrightarrow> fst (onDidReceiveMessage cfg m parts failure) = None) \<and>
   onDidReceiveMessage cfg m parts failure = onDidReceiveMessage cfg' m parts failure"
  by (simp add: onDidReceiveMessage_def)

theorem chat_model_fixed_witness:
  "onDidReceiveMessage (updateVSConfig (cfg0\<lparr> opt_model := Some ''codellama'' \<rparr>))
     \<lparr> msg_command = ''ask'', msg_text = ''Got SQL?'' \<rparr> [''Yes'', ''.''] None =
     (Some \<lparr> chat_model = ''deepseek-r1:8b'',
             chat_messages = [\<lparr> role = ''user'', content = ''Got SQL?'' \<rparr>],
             chat_stream = True \<rparr>,
      [\<lparr> msg_command = ''chatResponse'', msg_text = ''Yes'' \<rparr>,
       \<lparr> msg_command = ''chatResponse'', msg_text = ''Yes.'' \<rparr>]) \<and>
   fst (onDidReceiveMessage cfg_preview \<lparr> msg_command = ''other'', msg_text = ''x'' \<rparr> [] None) = None"
  using chat_model_fixed [of "\<lparr> msg_command = ''ask'', msg_text = ''Got SQL?'' \<rparr>"
      "updateVSConfig (cfg0\<lparr> opt_model := Some ''codellama'' \<rparr>)" "[''Yes'', ''.'']" None cfg_preview]
    chat_model_fixed [of "\<lparr> msg_command = ''other'', msg_text = ''x'' \<rparr>" cfg_preview "[]" None cfg_preview]
  by (simp add: onDidReceiveMessage_def)

subsection \<open>Tracker update\<close>

lemma split_nl_not_Nil: "split_nl s \<noteq> []"
  by (induction s) auto

lemma length_split_nl: "length (split_nl s) = Suc (count_list s (CHR 0x0A))"
proof (induction s)
  case Nil
  show ?case by simp
next
  case (Cons c cs)
  have "length (tl (split_nl cs)) = count_list cs (CHR 0x0A)"
    using Cons.IH by simp
  with Cons.IH show ?case by simp
qed

lemma after_last_nl_no_nl:
  assumes "CHR 0x0A \<notin> set s"
  shows "after_last_nl s = s"
proof -
  from assms have "\<forall>x\<in>set (rev s). x \<noteq> CHR 0x0A" by auto
  then have "takeWhile (\<lambda>c. c \<noteq> CHR 0x0A) (rev s) = rev s"
    by (simp only: takeWhile_eq_all_conv)
  then show ?thesis by (metis after_last_nl_def rev_rev_ident)
qed

lemma after_last_nl_Cons:
  "after_last_nl (c # cs) =
     (if CHR 0x0A \<in> set cs then after_last_nl cs
      else if c = CHR 0x0A then cs else c # cs)"
proof (cases "CHR 0x0A \<in> set cs")
  case True
  then have "takeWhile (\<lambda>c. c \<noteq> CHR 0x0A) (rev cs @ [c]) = takeWhile (\<lambda>c. c \<noteq> CHR 0x0A) (rev cs)"
    by (intro takeWhile_append1 [of "CHR 0x0A"]) auto
  with True show ?thesis by (simp add: after_last_nl_def)
next
  case False
  then have "takeWhile (\<lambda>c. c \<noteq> CHR 0x0A) (rev cs @ [c]) = rev cs @ takeWhile (\<lambda>c. c \<noteq> CHR 0x0A) [c]"
    by (intro takeWhile_append2) auto
  with False show ?thesis by (simp add: after_last_nl_def)
qed

lemma split_nl_no_nl: "CHR 0x0A \<notin> set s \<Longrightarrow> split_nl s = [s]"
  by (induction s) auto

lemma last_split_nl: "last (split_nl s) = after_last_nl s"
proof (induction s)
  case Nil
  show ?case by (simp add: after_last_nl_def)
next
  case (Cons c cs)
  show ?case
  proof (cases "CHR 0x0A \<in> set cs")
    case True
    then have "count_list cs (CHR 0x0A) \<noteq> 0" by (simp add: count_list_0_iff)
    then have ne: "tl (split_nl cs) \<noteq> []"
      using length_split_nl [of cs] by (cases "split_nl cs") auto
    then have "last (tl (split_nl cs)) = last (split_nl cs)"
      by (simp add: last_tl)
    with True Cons.IH split_nl_not_Nil [of cs] ne show ?thesis
      by (simp add: after_last_nl_Cons)
  next
    case False
    then show ?thesis
      by (simp add: after_last_nl_Cons split_nl_no_nl after_last_nl_no_nl)
  qed
qed

text \<open>
  The handler run in one step on a fragment that passes the check: the tracker moves
  by the fragment and one insertion at the old tracker is submitted.
\<close>

lemma on_data_applied:
  assumes "line (currentPosition s) = line (selection_end (selection s))"
    and "character (currentPosition s) = character (selection_end (selection s))"
    and "completion \<noteq> []"
  shows "currentPosition (on_data completion s) =
           (if CHR 0x0A \<notin> set completion
            then \<lparr> line = line (currentPosition s),
                   character = character (currentPosition s) + length completion \<rparr>
            else \<lparr> line = line (currentPosition s) + count_list completion (CHR 0x0A),
                   character = length (after_last_nl completion) \<rparr>)"
    and "edits (on_data completion s) = edits s @ [(currentPosition s, completion)]"
proof -
  show "edits (on_data completion s) = edits s @ [(currentPosition s, completion)]"
    using assms by (simp add: on_data_def Let_def)
  show "currentPosition (on_data completion s) =
           (if CHR 0x0A \<notin> set completion
            then \<lparr> line = line (currentPosition s),
                   character = character (currentPosition s) + length completion \<rparr>
            else \<lparr> line = line (currentPosition s) + count_list completion (CHR 0x0A),
                   character = length (after_last_nl completion) \<rparr>)"
  proof (cases "CHR 0x0A \<in> set completion")
    case True
    then have "count_list completion (CHR 0x0A) \<noteq> 0" by (simp add: count_list_0_iff)
    with True assms show ?thesis
      by (simp add: on_data_def Let_def length_split_nl last_split_nl)
  next
    case False
    with assms show ?thesis
      by (simp add: on_data_def Let_def split_nl_no_nl)
  qed
qed

text \<open>
  When the handler runs with nothing in between its two parts, a fragment, given as
  three chunks \<open>ab\<close>, \<open>\nc\<close> and the empty text from a caret at (line 0, col 5),
  leaves the tracker at (line 1, col 1) after two insertions.
\<close>

lemma on_data_empty:
  "edits (on_data [] s) = edits s \<and> currentPosition (on_data [] s) = currentPosition s"
  by (simp add: on_data_def Let_def cancelPost_def resolve_def split: option.splits)

lemma sequential_example:
  "currentPosition
     (run [Data ''ab'', Data [CHR 0x0A, CHR ''c''], Data []] (init_state (caret 0 5) tok)) =
     \<lparr> line = 1, character = 1 \<rparr> \<and>
   edits (run [Data ''ab'', Data [CHR 0x0A, CHR ''c''], Data []] (init_state (caret 0 5) tok)) =
     [(\<lparr> line = 0, character = 5 \<rparr>, ''ab''),
      (\<lparr> line = 0, character = 7 \<rparr>, [CHR 0x0A, CHR ''c''])]"
  by (simp add: init_state_def caret_def stream_emits_def on_data_def Let_def
      selection_end_def isBefore_def)

text \<open>
  The handler run in one step is its two parts, and delivery in which every edit is
  answered before the next event is \<open>run\<close>.
\<close>

lemma on_data_halves:
  "on_data completion s =
     (case data_begin completion s of
        (s', True) \<Rightarrow> data_resume completion s'
      | (s', False) \<Rightarrow> s')"
  by (simp add: on_data_def data_begin_def data_resume_def Let_def)

lemma async_deliver_answered:
  "async_deliver EditApplied (async_deliver (Arrive e) (s, [])) = (deliver e s, [])"
proof (cases e)
  case (Data completion)
  then show ?thesis
    by (cases "data_begin completion s") (auto simp: on_data_halves split: bool.splits)
qed simp_all

lemma async_run_sequential:
  "async_run (concat (map (\<lambda>e. [Arrive e, EditApplied]) evs)) (s, []) = (run evs s, [])"
  by (induction evs arbitrary: s) (simp_all add: async_deliver_answered)

text \<open>
  Once the cancel token has fired, no edit is added and the promise stays as it is,
  also when handlers suspended at their \<open>await\<close> resume afterwards.
\<close>

lemma async_deliver_cancelled:
  assumes "cancel_reason s \<noteq> None"
  shows "edits (fst (async_deliver e (s, awaiting))) = edits s \<and>
         cancel_reason (fst (async_deliver e (s, awaiting))) = cancel_reason s \<and>
         finished (fst (async_deliver e (s, awaiting))) = finished s \<and>
         finish_count (fst (async_deliver e (s, awaiting))) = finish_count s"
proof (cases e)
  case (Arrive ev)
  with assms show ?thesis
    by (cases ev) (auto simp: stream_emits_def cancelPost_def)
next
  case EditApplied
  then show ?thesis
    by (cases awaiting) (simp_all add: data_resume_def Let_def)
qed

lemma async_run_cancelled:
  assumes "cancel_reason s \<noteq> None"
  shows "edits (fst (async_run evs (s, awaiting))) = edits s \<and>
         finished (fst (async_run evs (s, awaiting))) = finished s \<and>
         finish_count (fst (async_run evs (s, awaiting))) = finish_count s"
  using assms
proof (induction evs arbitrary: s awaiting)
  case Nil
  show ?case by simp
next
  case (Cons e es)
  obtain s' awaiting' where d: "async_deliver e (s, awaiting) = (s', awaiting')"
    by (cases "async_deliver e (s, awaiting)")
  from async_deliver_cancelled [OF Cons.prems, of e awaiting] d
  have same: "edits s' = edits s" "cancel_reason s' = cancel_reason s"
    "finished s' = finished s" "finish_count s' = finish_count s"
    by simp_all
  with Cons.prems have "cancel_reason s' \<noteq> None" by simp
  from Cons.IH [OF this, of awaiting'] same d show ?case by simp
qed

text \<open>
  C2. The claim has every fragment inserted at the tracker and the tracker moved from
  the position of the insertion by the fragment. The code does so only when the edit is
  answered before the next chunk arrives. With the chunks \<open>ab\<close> and \<open>cd\<close> arriving
  one after the other from a caret at (line 0, col 5), before the host has answered the
  first edit, both are inserted at (line 0, col 5), and the tracker ends at
  (line 0, col 9): the second fragment, inserted at col 5, leaves the tracker at col 9
  and not at col 7.
\<close>

theorem overlapping_chunks_stale_tracker:
  "edits (fst (async_run [Arrive (Data ''ab''), Arrive (Data ''cd''), EditApplied, EditApplied]
                 (init_state (caret 0 5) False, []))) =
     [(\<lparr> line = 0, character = 5 \<rparr>, ''ab''), (\<lparr> line = 0, character = 5 \<rparr>, ''cd'')] \<and>
   currentPosition
     (fst (async_run [Arrive (Data ''ab''), Arrive (Data ''cd''), EditApplied, EditApplied]
             (init_state (caret 0 5) False, []))) =
     \<lparr> line = 0, character = 9 \<rparr> \<and>
   currentPosition
     (fst (async_run [Arrive (Data ''ab''), Arrive (Data ''cd''), EditApplied]
             (init_state (caret 0 5) False, []))) =
     \<lparr> line = 0, character = 7 \<rparr>"
  by (simp add: init_state_def caret_def stream_emits_def data_begin_def data_resume_def
      Let_def selection_end_def isBefore_def)

subsection \<open>The request's invariant\<close>


lemma consistent_init: "consistent (init_state sel tok)"
  by (simp add: consistent_def init_state_def)

lemma consistent_cancelPost: "consistent s \<Longrightarrow> consistent (cancelPost s)"
  by (auto simp: consistent_def cancelPost_def resolve_def split: option.splits)

lemma consistent_set_progress:
  "consistent s \<Longrightarrow> consistent (s\<lparr> progress := progress s @ [''Generating...''] \<rparr>)"
  by (simp add: consistent_def)

lemma consistent_on_data: "consistent s \<Longrightarrow> consistent (on_data d s)"
proof -
  assume c: "consistent s"
  let ?s = "s\<lparr> progress := progress s @ [''Generating...''] \<rparr>"
  have c1: "consistent ?s" using c by (rule consistent_set_progress)
  have c2: "consistent (cancelPost ?s)" using c1 by (rule consistent_cancelPost)
  show ?thesis
    using c1 c2 by (simp add: on_data_def Let_def) (simp add: consistent_def)
qed

lemma consistent_on_end: "consistent s \<Longrightarrow> stream_emits s \<Longrightarrow> consistent (on_end s)"
  by (auto simp: consistent_def on_end_def resolve_def stream_emits_def split: option.splits)

lemma consistent_deliver: "consistent s \<Longrightarrow> consistent (deliver e s)"
proof (cases e)
  case (Data d) then show "consistent s \<Longrightarrow> ?thesis" by (simp add: consistent_on_data)
next
  case End then show "consistent s \<Longrightarrow> ?thesis" by (simp add: consistent_on_end)
next
  case (Cancel src) then show "consistent s \<Longrightarrow> ?thesis" by (simp add: consistent_cancelPost)
next
  case (Select a b) then show "consistent s \<Longrightarrow> ?thesis" by (simp add: consistent_def)
qed

lemma consistent_run: "consistent s \<Longrightarrow> consistent (run evs s)"
  by (induction evs arbitrary: s) (auto simp: consistent_deliver)




subsection \<open>Stale-stream detection\<close>



subsection \<open>Exactly-once termination\<close>

lemma host_token_deliver: "host_token (deliver e s) = host_token s"
  by (cases e) (auto simp: on_data_def Let_def cancelPost_def resolve_def on_end_def split: option.splits)

lemma host_token_run: "host_token (run evs s) = host_token s"
  by (induction evs arbitrary: s) (auto simp: host_token_deliver)

lemma finished_deliver_stable:
  "finished s \<noteq> None \<Longrightarrow> finished (deliver e s) = finished s"
  by (cases e) (auto simp: on_data_def Let_def cancelPost_def resolve_def on_end_def split: option.splits)

lemma finished_run_stable:
  "finished s \<noteq> None \<Longrightarrow> finished (run evs s) = finished s"
proof (induction evs arbitrary: s)
  case Nil show ?case by simp
next
  case (Cons e es)
  from Cons.prems have "finished (deliver e s) = finished s" by (rule finished_deliver_stable)
  with Cons.prems Cons.IH [of "deliver e s"] show ?case by simp
qed

lemma terminal_deliver:
  assumes "consistent s" and "is_terminal (host_token s) e"
  shows "finished (deliver e s) \<noteq> None"
  using assms 
  by (cases e) (auto simp: is_terminal_def consistent_def stream_emits_def on_end_def resolve_def cancelPost_def
       split: option.splits)

lemma terminal_run:
  assumes "consistent s" and "\<exists>e\<in>set evs. is_terminal (host_token s) e"
  shows "finished (run evs s) \<noteq> None"
  using assms
proof (induction evs arbitrary: s)
  case Nil then show ?case by simp
next
  case (Cons e es)
  show ?case
  proof (cases "is_terminal (host_token s) e")
    case True
    with Cons.prems(1) have "finished (deliver e s) \<noteq> None" by (rule terminal_deliver)
    then show ?thesis using finished_run_stable [of "deliver e s" es] by simp
  next
    case False
    with Cons.prems(2) have ex: "\<exists>x\<in>set es. is_terminal (host_token (deliver e s)) x"
      by (simp add: host_token_deliver)
    from Cons.prems(1) have co: "consistent (deliver e s)" by (rule consistent_deliver)
    have "finished (run es (deliver e s)) \<noteq> None" by (rule Cons.IH [OF co ex])
    then show ?thesis by simp
  qed
qed

text \<open>
  C3. For any sequence of events of a request: \<open>await finished\<close> returns at most once,
  and exactly once as soon as the sequence holds an end of stream or a cancellation
  from a registered source, however many there are; it has returned exactly when the
  promise is settled; a promise settled with true (end of stream) has the completion
  message reported, and one settled with false (cancellation) has not.
\<close>

theorem finished_exactly_once:
  "finish_count (run evs (init_state sel tok)) \<le> 1 \<and>
   ((\<exists>e\<in>set evs. is_terminal tok e) \<longrightarrow> finish_count (run evs (init_state sel tok)) = 1) \<and>
   (finish_count (run evs (init_state sel tok)) = 1 \<longleftrightarrow> finished (run evs (init_state sel tok)) \<noteq> None) \<and>
   (finished (run evs (init_state sel tok)) = Some True \<longrightarrow>
      ''Ollama completion finished.'' \<in> set (progress (run evs (init_state sel tok)))) \<and>
   (finished (run evs (init_state sel tok)) = Some False \<longrightarrow>
      cancel_reason (run evs (init_state sel tok)) \<noteq> None \<and>
      ''Ollama completion finished.'' \<notin> set (progress (run evs (init_state sel tok))))"
proof -
  let ?s = "run evs (init_state sel tok)"
  have c: "consistent ?s" by (simp add: consistent_init consistent_run)
  have t: "(\<exists>e\<in>set evs. is_terminal tok e) \<Longrightarrow> finished ?s \<noteq> None"
    using terminal_run [of "init_state sel tok" evs] consistent_init [of sel tok]
    by (simp add: init_state_def)
  from c t show ?thesis by (auto simp: consistent_def split: if_splits)
qed


theorem finished_exactly_once_witness:
  "finish_count (run [Data ''a'', Cancel ProgressUI, Cancel DocumentClose, Cancel HostToken, End]
                   (init_state (caret 0 0) True)) = 1 \<and>
   finished (run [Data ''a'', Cancel ProgressUI, Cancel DocumentClose, Cancel HostToken, End]
                   (init_state (caret 0 0) True)) = Some False \<and>
   finish_count (run [Data ''a'', End, Cancel DocumentClose, Cancel ProgressUI]
                   (init_state (caret 0 0) False)) = 1 \<and>
   finished (run [Data ''a'', End, Cancel DocumentClose, Cancel ProgressUI]
                   (init_state (caret 0 0) False)) = Some True \<and>
   progress (run [Data ''a'', End, Cancel DocumentClose, Cancel ProgressUI]
                   (init_state (caret 0 0) False)) =
     [''Starting model...'', ''Generating...'', ''Generating...'', ''Ollama completion finished.'']"
  using finished_exactly_once
      [of "[Data ''a'', Cancel ProgressUI, Cancel DocumentClose, Cancel HostToken, End]" "caret 0 0" True]
    finished_exactly_once
      [of "[Data ''a'', End, Cancel DocumentClose, Cancel ProgressUI]" "caret 0 0" False]
  by (simp add: init_state_def caret_def stream_emits_def on_data_def Let_def
      selection_end_def isBefore_def cancelPost_def resolve_def on_end_def is_terminal_def)

subsection \<open>Header substitution\<close>

lemma get_substitution_plain:
  "CHR ''$'' \<notin> set rep \<Longrightarrow> get_substitution m b a rep = rep"
  by (induction m b a rep rule: get_substitution.induct) auto

lemma split_first_skip_lit:
  assumes "CHR ''{'' \<notin> set l"
  shows "split_first (CHR ''{'' # q) (l @ rest) =
           (case split_first (CHR ''{'' # q) rest of
              None \<Rightarrow> None
            | Some (b, a) \<Rightarrow> Some (l @ b, a))"
  using assms by (induction l) (auto split: option.splits)

lemma piece_text_brace:
  "is_placeholder p \<Longrightarrow> \<exists>q. piece_text p = CHR ''{'' # q"
  by (cases p) auto

lemma split_first_hit:
  "is_placeholder p \<Longrightarrow> split_first (piece_text p) (piece_text p @ rest) = Some ([], rest)"
  by (cases p) auto

lemma split_first_skip_other:
  assumes "is_placeholder p" and "is_placeholder p'" and "p' \<noteq> p"
  shows "split_first (piece_text p) (piece_text p' @ rest) =
           (case split_first (piece_text p) rest of
              None \<Rightarrow> None
            | Some (b, a) \<Rightarrow> Some (piece_text p' @ b, a))"
  using assms by (cases p; cases p'; simp split: option.splits)

lemma template_Cons: "template (x # xs) = piece_text x @ template xs"
  by (simp add: template_def)

lemma split_first_template:
  assumes "list_all lit_ok ps" and "is_placeholder p"
  shows "split_first (piece_text p) (template ps) =
           (if p \<in> set ps
            then Some (template (takeWhile (\<lambda>x. x \<noteq> p) ps),
                       template (tl (dropWhile (\<lambda>x. x \<noteq> p) ps)))
            else None)"
  using assms(1)
proof (induction ps)
  case Nil
  from assms(2) show ?case by (cases p) (simp_all add: template_def)
next
  case (Cons x xs)
  from Cons.prems have ok: "lit_ok x" and oks: "list_all lit_ok xs" by simp_all
  note IH = Cons.IH [OF oks]
  have t: "template (x # xs) = piece_text x @ template xs" by (simp add: template_def)
  show ?case
  proof (cases "x = p")
    case True
    have "split_first (piece_text p) (piece_text p @ template xs) = Some ([], template xs)"
      using assms(2) by (rule split_first_hit)
    with True have "split_first (piece_text p) (template (x # xs)) = Some ([], template xs)"
      by (simp only: template_Cons)
    with True show ?thesis by (simp add: template_def)
  next
    case False
    show ?thesis
    proof (cases "is_placeholder x")
      case True
      from split_first_skip_other [OF assms(2) True False, of "template xs"] IH False
      show ?thesis by (simp add: t) (simp add: template_def)
    next
      case False
      then obtain l where x: "x = Lit l" by (cases x) auto
      with ok have nb: "CHR ''{'' \<notin> set l" by simp
      from piece_text_brace [OF assms(2)] obtain q where q: "piece_text p = CHR ''{'' # q" by blast
      from split_first_skip_lit [OF nb, of q "template xs"] IH x q \<open>x \<noteq> p\<close>
      show ?thesis by (simp add: t) (simp add: template_def)
    qed
  qed
qed

lemma template_subst_piece:
  "template (subst_piece p v ps) =
     (if p \<in> set ps
      then template (takeWhile (\<lambda>x. x \<noteq> p) ps) @ v @ template (tl (dropWhile (\<lambda>x. x \<noteq> p) ps))
      else template ps)"
  by (induction ps) (auto simp: template_def)

lemma js_replace_template:
  assumes "list_all lit_ok ps" and "is_placeholder p" and "CHR ''$'' \<notin> set v"
  shows "js_replace (piece_text p) v (template ps) = template (subst_piece p v ps)"
  using split_first_template [OF assms(1,2)] assms(3)
  by (simp add: js_replace_def template_subst_piece get_substitution_plain)

lemma subst_piece_map:
  "count_list ps p \<le> 1 \<Longrightarrow> subst_piece p v ps = map (\<lambda>x. if x = p then Lit v else x) ps"
proof (induction ps)
  case Nil show ?case by simp
next
  case (Cons x xs)
  show ?case
  proof (cases "x = p")
    case True
    with Cons.prems have "count_list xs p = 0" by simp
    then have "p \<notin> set xs" by (simp add: count_list_0_iff)
    then have "map (\<lambda>x. if x = p then Lit v else x) xs = xs" by (induction xs) auto
    with True show ?thesis by simp
  next
    case False
    with Cons show ?thesis by simp
  qed
qed

lemma count_list_map_other:
  "is_placeholder q \<Longrightarrow> q \<noteq> p \<Longrightarrow>
   count_list (map (\<lambda>x. if x = p then Lit v else x) ps) q = count_list ps q"
  by (induction ps) auto

lemma lit_ok_map:
  "list_all lit_ok ps \<Longrightarrow> CHR ''{'' \<notin> set v \<Longrightarrow>
   list_all lit_ok (map (\<lambda>x. if x = p then Lit v else x) ps)"
  by (induction ps) auto

lemma template_all_substituted:
  "template (map (\<lambda>x. if x = PROJECT_NAME then Lit v3 else x)
       (map (\<lambda>x. if x = FILE_NAME then Lit v2 else x)
          (map (\<lambda>x. if x = LANG then Lit v1 else x) ps))) =
   concat (map (\<lambda>x. case x of Lit l \<Rightarrow> l | LANG \<Rightarrow> v1 | FILE_NAME \<Rightarrow> v2 | PROJECT_NAME \<Rightarrow> v3) ps)"
  by (induction ps) (auto simp: template_def split: piece.splits)

lemma piece_value_case:
  "piece_value w d x =
     (case x of Lit l \<Rightarrow> l | LANG \<Rightarrow> languageId d | FILE_NAME \<Rightarrow> fileName d
      | PROJECT_NAME \<Rightarrow> or_str w ''Untitled'')"
  by (cases x) auto

lemma messageHeaderSub_template:
  assumes "simple_template ps" and "apiMessageHeader cfg = template ps"
    and "plain (languageId d)" and "plain (fileName d)" and "plain (or_str w ''Untitled'')"
  shows "messageHeaderSub cfg w d = concat (map (piece_value w d) ps)"
proof -
  let ?f1 = "\<lambda>x. if x = LANG then Lit (languageId d) else x"
  let ?f2 = "\<lambda>x. if x = FILE_NAME then Lit (fileName d) else x"
  let ?f3 = "\<lambda>x. if x = PROJECT_NAME then Lit (or_str w ''Untitled'') else x"
  from assms(1) have ok0: "list_all lit_ok ps" and c1: "count_list ps LANG \<le> 1"
    and c2: "count_list ps FILE_NAME \<le> 1" and c3: "count_list ps PROJECT_NAME \<le> 1"
    by (simp_all add: simple_template_def)
  from assms(3-5) have d: "CHR ''$'' \<notin> set (languageId d)" "CHR ''$'' \<notin> set (fileName d)"
      "CHR ''$'' \<notin> set (or_str w ''Untitled'')"
    and b: "CHR ''{'' \<notin> set (languageId d)" "CHR ''{'' \<notin> set (fileName d)"
    by (simp_all add: plain_def)
  have s1: "js_replace ''{LANG}'' (languageId d) (template ps) = template (map ?f1 ps)"
    using js_replace_template [OF ok0, of LANG "languageId d"] d(1) subst_piece_map [OF c1]
    by simp
  have ok1: "list_all lit_ok (map ?f1 ps)" using ok0 b(1) by (rule lit_ok_map)
  have c2': "count_list (map ?f1 ps) FILE_NAME \<le> 1"
    using c2 by (simp add: count_list_map_other)
  have s2: "js_replace ''{FILE_NAME}'' (fileName d) (template (map ?f1 ps)) =
              template (map ?f2 (map ?f1 ps))"
    using js_replace_template [OF ok1, of FILE_NAME "fileName d"] d(2) subst_piece_map [OF c2']
    by simp
  have ok2: "list_all lit_ok (map ?f2 (map ?f1 ps))" using ok1 b(2) by (rule lit_ok_map)
  have "count_list (map ?f2 (map ?f1 ps)) PROJECT_NAME = count_list (map ?f1 ps) PROJECT_NAME"
    by (rule count_list_map_other) simp_all
  also have "\<dots> = count_list ps PROJECT_NAME"
    by (rule count_list_map_other) simp_all
  finally have c3': "count_list (map ?f2 (map ?f1 ps)) PROJECT_NAME \<le> 1"
    using c3 by simp
  have s3: "js_replace ''{PROJECT_NAME}'' (or_str w ''Untitled'') (template (map ?f2 (map ?f1 ps))) =
              template (map ?f3 (map ?f2 (map ?f1 ps)))"
    using js_replace_template [OF ok2, of PROJECT_NAME "or_str w ''Untitled''"] d(3)
      subst_piece_map [OF c3']
    by simp
  have "messageHeaderSub cfg w d = template (map ?f3 (map ?f2 (map ?f1 ps)))"
    by (simp only: messageHeaderSub_def assms(2) s1 s2 s3)
  also have "\<dots> = concat (map (piece_value w d) ps)"
    by (simp only: template_all_substituted piece_value_case [abs_def])
  finally show ?thesis .
qed

lemma no_brace_result:
  assumes "list_all lit_ok ps" and "plain (languageId d)" and "plain (fileName d)"
    and "plain (or_str w ''Untitled'')"
  shows "CHR ''{'' \<notin> set (concat (map (piece_value w d) ps))"
  using assms(1)
proof (induction ps)
  case Nil show ?case by simp
next
  case (Cons x xs)
  with assms(2-4) show ?case by (cases x) (auto simp: plain_def)
qed

lemma sublist_brace:
  assumes "sublist xs ys" and "CHR ''{'' \<in> set xs"
  shows "CHR ''{'' \<in> set ys"
  using assms by (auto simp: sublist_def)

text \<open>
  C5, as the claim states it, fails: \<open>replace\<close> with a string pattern replaces the
  first occurrence only, and expands \<open>$&\<close> in the replacement to the matched text. A
  template that holds the three placeholders and \<open>{LANG}\<close> twice keeps the second
  \<open>{LANG}\<close>; with a file name \<open>$&.sql\<close> the result holds \<open>{FILE_NAME}\<close>.
\<close>

theorem messageHeaderSub_placeholder_left:
  "apiMessageHeader cfg_repeat = ''{LANG} {FILE_NAME} {PROJECT_NAME} {LANG}'' \<and>
   messageHeaderSub cfg_repeat None doc0 = ''sql q.sql Untitled {LANG}'' \<and>
   sublist ''{LANG}'' (messageHeaderSub cfg_repeat None doc0) \<and>
   messageHeaderSub cfg_header None \<lparr> languageId = ''sql'', fileName = ''$&.sql'' \<rparr> =
     ''-- sql file {FILE_NAME}.sql in Untitled: '' \<and>
   sublist ''{FILE_NAME}''
     (messageHeaderSub cfg_header None \<lparr> languageId = ''sql'', fileName = ''$&.sql'' \<rparr>)"
proof -
  have h: "apiMessageHeader cfg_repeat = ''{LANG} {FILE_NAME} {PROJECT_NAME} {LANG}''"
    by (simp add: cfg_repeat_def updateVSConfig_def or_str_def cfg0_def)
  have r: "messageHeaderSub cfg_repeat None doc0 = ''sql q.sql Untitled '' @ ''{LANG}'' @ []"
    by (simp add: messageHeaderSub_def h js_replace_def doc0_def or_str_def)
  have h2: "apiMessageHeader cfg_header = ''-- {LANG} file {FILE_NAME} in {PROJECT_NAME}: ''"
    by (simp add: cfg_header_def updateVSConfig_def or_str_def cfg0_def)
  have f: "messageHeaderSub cfg_header None \<lparr> languageId = ''sql'', fileName = ''$&.sql'' \<rparr> =
      ''-- sql file '' @ ''{FILE_NAME}'' @ ''.sql in Untitled: ''"
    by (simp add: messageHeaderSub_def h2 js_replace_def or_str_def)
  have "sublist ''{LANG}'' (messageHeaderSub cfg_repeat None doc0)"
    by (simp only: r sublist_appendI)
  moreover have "sublist ''{FILE_NAME}''
     (messageHeaderSub cfg_header None \<lparr> languageId = ''sql'', fileName = ''$&.sql'' \<rparr>)"
    by (simp only: f sublist_appendI)
  ultimately show ?thesis using h r f by simp
qed

text \<open>
  C5, amended. For a simple header template (each placeholder at most once, no other
  opening brace) and a language id, a file name and a workspace name (or "Untitled" when
  the workspace has none) that are plain, the substituted header is the template with
  \<open>{LANG}\<close> replaced by the language id, \<open>{FILE_NAME}\<close> by the file name and
  \<open>{PROJECT_NAME}\<close> by the workspace name or "Untitled", and it contains none of the
  three placeholders.
\<close>

theorem messageHeaderSub_total:
  assumes "simple_template ps" and "apiMessageHeader cfg = template ps"
    and "plain (languageId d)" and "plain (fileName d)" and "plain (or_str w ''Untitled'')"
  shows "messageHeaderSub cfg w d = concat (map (piece_value w d) ps) \<and>
         \<not> sublist ''{LANG}'' (messageHeaderSub cfg w d) \<and>
         \<not> sublist ''{FILE_NAME}'' (messageHeaderSub cfg w d) \<and>
         \<not> sublist ''{PROJECT_NAME}'' (messageHeaderSub cfg w d)"
proof -
  have eq: "messageHeaderSub cfg w d = concat (map (piece_value w d) ps)"
    using assms by (rule messageHeaderSub_template)
  from assms(1) have "list_all lit_ok ps" by (simp add: simple_template_def)
  then have nb: "CHR ''{'' \<notin> set (messageHeaderSub cfg w d)"
    using assms(3-5) eq no_brace_result by simp
  have "\<not> sublist ''{LANG}'' (messageHeaderSub cfg w d)"
    using nb sublist_brace [of "''{LANG}''"] by auto
  moreover have "\<not> sublist ''{FILE_NAME}'' (messageHeaderSub cfg w d)"
    using nb sublist_brace [of "''{FILE_NAME}''"] by auto
  moreover have "\<not> sublist ''{PROJECT_NAME}'' (messageHeaderSub cfg w d)"
    using nb sublist_brace [of "''{PROJECT_NAME}''"] by auto
  ultimately show ?thesis using eq by simp
qed

theorem messageHeaderSub_total_witness:
  "messageHeaderSub cfg_header None doc0 = ''-- sql file q.sql in Untitled: '' \<and>
   messageHeaderSub cfg_header (Some ''shop'') doc0 = ''-- sql file q.sql in shop: '' \<and>
   \<not> sublist ''{LANG}'' (messageHeaderSub cfg_header None doc0) \<and>
   \<not> sublist ''{FILE_NAME}'' (messageHeaderSub cfg_header None doc0) \<and>
   \<not> sublist ''{PROJECT_NAME}'' (messageHeaderSub cfg_header None doc0)"
proof -
  let ?ps = "[Lit ''-- '', LANG, Lit '' file '', FILE_NAME, Lit '' in '', PROJECT_NAME, Lit '': '']"
  have h1: "simple_template ?ps" by (simp add: simple_template_def)
  have h2: "apiMessageHeader cfg_header = template ?ps"
    by (simp add: template_def cfg_header_def updateVSConfig_def cfg0_def or_str_def)
  have h3: "plain (languageId doc0)" and h4: "plain (fileName doc0)"
    by (simp_all add: plain_def doc0_def)
  have h5: "plain (or_str None ''Untitled'')"
    and h5': "plain (or_str (Some ''shop'') ''Untitled'')"
    by (simp_all add: plain_def or_str_def)
  have v1: "concat (map (piece_value None doc0) ?ps) = ''-- sql file q.sql in Untitled: ''"
    and v2: "concat (map (piece_value (Some ''shop'') doc0) ?ps) = ''-- sql file q.sql in shop: ''"
    by (simp_all add: doc0_def or_str_def)
  note r1 = messageHeaderSub_total [OF h1 h2 h3 h4 h5, unfolded v1]
  note r2 = messageHeaderSub_total [OF h1 h2 h3 h4 h5', unfolded v2]
  from r1 r2 show ?thesis by blast
qed

end
